theory Spec2Isabelle
  imports Main "HOL-Library.Char_ord" "HOL-Library.List_Lexorder"
begin

section \<open>Python string primitives used by the group code\<close>

text \<open>
  The source is Python 2 (\<^verbatim>\<open>unicode(...)\<close>, \<^verbatim>\<open>metadata.keys()[0]\<close>): strings are
  compared by character code, lists of strings sort lexicographically, and \<^verbatim>\<open>/\<close> on two
  integers is floor division.
\<close>

text \<open>\<^verbatim>\<open>s.split(',')\<close>: always at least one field; the empty string gives one empty field.\<close>

fun split_comma :: "string \<Rightarrow> string list" where
  "split_comma [] = [[]]"
| "split_comma (c # cs) =
     (if c = CHR '','' then [] # split_comma cs
      else (case split_comma cs of [] \<Rightarrow> [[c]] | w # ws \<Rightarrow> (c # w) # ws))"

text \<open>\<^verbatim>\<open>','.join(xs)\<close>.\<close>

fun join_comma :: "string list \<Rightarrow> string" where
  "join_comma [] = []"
| "join_comma [x] = x"
| "join_comma (x # y # ys) = x @ CHR '','' # join_comma (y # ys)"

text \<open>\<^verbatim>\<open>'%d' % x\<close> and \<^verbatim>\<open>'%s' % x\<close> for an integer: its decimal digits.\<close>

definition digit_char :: "nat \<Rightarrow> char" where
  "digit_char d = char_of (48 + d)"

fun str_nat :: "nat \<Rightarrow> string" where
  "str_nat n = (if n < 10 then [digit_char n] else str_nat (n div 10) @ [digit_char (n mod 10)])"

declare str_nat.simps [simp del]

definition str_int :: "int \<Rightarrow> string" where
  "str_int i = (if i < 0 then CHR ''-'' # str_nat (nat (- i)) else str_nat (nat i))"

text \<open>\<^verbatim>\<open>xs[k:]\<close>: a negative \<open>k\<close> counts from the end of the list.\<close>

definition py_slice_from :: "'a list \<Rightarrow> int \<Rightarrow> 'a list" where
  "py_slice_from xs k =
     (if k < 0 then drop (nat (int (length xs) + k)) xs else drop (nat k) xs)"

section \<open>The group object and its collaborators\<close>

text \<open>
  The calls that leave the module (\<^verbatim>\<open>inst.create()\<close>, \<^verbatim>\<open>inst.destroy()\<close>,
  \<^verbatim>\<open>lb.reload(id_list)\<close>) are recorded in a trace. \<^verbatim>\<open>create\<close> and \<^verbatim>\<open>destroy\<close> return
  an error string or \<^verbatim>\<open>None\<close>; what they return is given by the environment, which may
  depend on every call made so far.
\<close>

datatype event =
    Create string "string option"
  | Destroy string "string option"
  | Reload string "string list"

record env =
  create_result :: "event list \<Rightarrow> string \<Rightarrow> string option"
  destroy_result :: "event list \<Rightarrow> string \<Rightarrow> string option"
  ref_id :: "string \<Rightarrow> string"

datatype exn = NestedResourceFailure string

datatype outcome = Returned | Raised exn

text \<open>
  \<^verbatim>\<open>self.properties\<close>, after the template loader: \<^verbatim>\<open>int(self.properties['MinSize'])\<close> and
  \<^verbatim>\<open>int(self.properties['MaxSize'])\<close> are integers, \<^verbatim>\<open>Cooldown\<close> and
  \<^verbatim>\<open>DesiredCapacity\<close> are \<^verbatim>\<open>None\<close> when absent, \<^verbatim>\<open>LoadBalancerNames\<close> is empty when
  absent. The launch configuration and the load balancers named by the group are taken to
  exist in the stack.
\<close>

record properties =
  MinSize :: int
  MaxSize :: int
  Cooldown :: "int option"
  DesiredCapacity :: "int option"
  LoadBalancerNames :: "string list"

text \<open>
  The fields of \<^verbatim>\<open>self\<close> that the code reads and writes. \<^verbatim>\<open>metadata\<close> is the
  one-entry dictionary \<^verbatim>\<open>{timestamp: reason}\<close>, or nothing.
\<close>

record group =
  name :: string
  props :: properties
  resource_id :: "string option"
  metadata :: "(int \<times> string) option"
  trace :: "event list"

section \<open>InstanceGroup.resize\<close>

text \<open>
  \<^verbatim>\<open>inst_list = []; if self.resource_id is not None:
     inst_list = sorted(self.resource_id.split(','))\<close>
\<close>

definition read_inst_list :: "string option \<Rightarrow> string list" where
  "read_inst_list rid = (case rid of None \<Rightarrow> [] | Some s \<Rightarrow> sort (split_comma s))"

text \<open>\<^verbatim>\<open>name = '%s-%d' % (self.name, x)\<close>, for an index \<open>x\<close> of \<^verbatim>\<open>range\<close>.\<close>

definition member_name :: "string \<Rightarrow> nat \<Rightarrow> string" where
  "member_name group_name x = group_name @ ''-'' @ str_nat x"

text \<open>
  The grow loop, \<^verbatim>\<open>for x in range(capacity, new_capacity)\<close>: the name is appended and
  stored before \<^verbatim>\<open>inst.create()\<close> is called; the loop is left by the raise.
\<close>

fun grow :: "env \<Rightarrow> bool \<Rightarrow> nat list \<Rightarrow> string list \<Rightarrow> group \<Rightarrow> outcome \<times> string list \<times> group" where
  "grow E raise_on_error [] inst_list g = (Returned, inst_list, g)"
| "grow E raise_on_error (x # xs) inst_list g =
     (let nm = member_name (name g) x;
          inst_list' = inst_list @ [nm];
          g1 = g\<lparr>resource_id := Some (join_comma inst_list')\<rparr>;
          error_str = create_result E (trace g1) nm;
          g2 = g1\<lparr>trace := trace g1 @ [Create nm error_str]\<rparr>
      in case error_str of
           Some msg \<Rightarrow>
             if raise_on_error then (Raised (NestedResourceFailure msg), inst_list', g2)
             else grow E raise_on_error xs inst_list' g2
         | None \<Rightarrow> grow E raise_on_error xs inst_list' g2)"

text \<open>
  The shrink loop, \<^verbatim>\<open>for victim in reversed(del_list)\<close>: the result of
  \<^verbatim>\<open>inst.destroy()\<close> is not looked at. \<^verbatim>\<open>inst_list.remove(victim)\<close> removes the
  first occurrence; the victims are taken from the list itself, so it never raises.
\<close>

fun shrink :: "env \<Rightarrow> string list \<Rightarrow> string list \<Rightarrow> group \<Rightarrow> string list \<times> group" where
  "shrink E [] inst_list g = (inst_list, g)"
| "shrink E (victim # vs) inst_list g =
     (let r = destroy_result E (trace g) victim;
          g1 = g\<lparr>trace := trace g @ [Destroy victim r]\<rparr>;
          inst_list' = remove1 victim inst_list;
          g2 = g1\<lparr>resource_id := Some (join_comma inst_list')\<rparr>
      in shrink E vs inst_list' g2)"

text \<open>The notification of the load balancers at the end of \<^verbatim>\<open>resize\<close>.\<close>

definition reload_lbs :: "env \<Rightarrow> string list \<Rightarrow> group \<Rightarrow> group" where
  "reload_lbs E inst_list g =
     (if LoadBalancerNames (props g) \<noteq> [] then
        (let id_list = map (ref_id E) inst_list
         in g\<lparr>trace := trace g @ map (\<lambda>lb. Reload lb id_list) (LoadBalancerNames (props g))\<rparr>)
      else g)"

definition resize :: "env \<Rightarrow> int \<Rightarrow> bool \<Rightarrow> group \<Rightarrow> outcome \<times> group" where
  "resize E new_capacity raise_on_error g =
     (let inst_list = read_inst_list (resource_id g);
          capacity = int (length inst_list)
      in if new_capacity = capacity then (Returned, g)
         else if new_capacity > capacity then
           (case grow E raise_on_error [length inst_list ..< nat new_capacity] inst_list g of
              (Raised e, il, g') \<Rightarrow> (Raised e, g')
            | (Returned, il, g') \<Rightarrow> (Returned, reload_lbs E il g'))
         else
           (case shrink E (rev (py_slice_from inst_list new_capacity)) inst_list g of
              (il, g') \<Rightarrow> (Returned, reload_lbs E il g')))"

section \<open>CooldownMixin\<close>

text \<open>
  Modelled from the spec: \<^verbatim>\<open>timeutils.is_older_than\<close> and \<^verbatim>\<open>timeutils.strtime\<close> are
  not among the sources. The spec says the guard is in progress iff a record exists and
  \<open>now - record.timestamp < window\<close>, so \<open>is_older_than\<close> holds iff at least \<open>seconds\<close>
  have passed since \<open>before\<close>. Time is an integer number of seconds, and the clock
  readings are arguments.
\<close>

definition is_older_than :: "int \<Rightarrow> int \<Rightarrow> int \<Rightarrow> bool" where
  "is_older_than now before seconds = (\<not> (now - before < seconds))"

definition cooldown_inprogress :: "int \<Rightarrow> group \<Rightarrow> bool" where
  "cooldown_inprogress now g =
     (let cooldown = (case Cooldown (props g) of Some c \<Rightarrow> max 0 c | None \<Rightarrow> 0)
      in case metadata g of
           None \<Rightarrow> False
         | Some (last_adjust, reason) \<Rightarrow>
             cooldown \<noteq> 0 \<and> \<not> is_older_than now last_adjust cooldown)"

definition cooldown_timestamp :: "int \<Rightarrow> string \<Rightarrow> group \<Rightarrow> group" where
  "cooldown_timestamp now reason g = g\<lparr>metadata := Some (now, reason)\<rparr>"

section \<open>AutoScalingGroup\<close>

text \<open>
  The target computed by \<^verbatim>\<open>adjust\<close>; every adjustment type other than the first two
  takes the percentage branch. \<^verbatim>\<open>capacity * adjustment / 100\<close> is Python 2 integer
  division, which rounds toward minus infinity, as \<open>div\<close> on \<open>int\<close> does.
\<close>

definition new_capacity_of :: "string \<Rightarrow> int \<Rightarrow> int \<Rightarrow> int" where
  "new_capacity_of adjustment_type capacity adjustment =
     (if adjustment_type = ''ChangeInCapacity'' then capacity + adjustment
      else if adjustment_type = ''ExactCapacity'' then adjustment
      else capacity + (capacity * adjustment div 100))"

text \<open>
  \<open>now\<close> is the clock when the cooldown is checked, \<open>stamp\<close> the clock when the
  timestamp is written after \<^verbatim>\<open>resize\<close> has returned.
\<close>

definition adjust :: "env \<Rightarrow> int \<Rightarrow> int \<Rightarrow> int \<Rightarrow> string \<Rightarrow> bool \<Rightarrow> group \<Rightarrow> outcome \<times> group" where
  "adjust E now stamp adjustment adjustment_type raise_on_error g =
     (if cooldown_inprogress now g then (Returned, g)
      else
        (let inst_list = read_inst_list (resource_id g);
             capacity = int (length inst_list);
             new_capacity = new_capacity_of adjustment_type capacity adjustment
         in if new_capacity > MaxSize (props g) then (Returned, g)
            else if new_capacity < MinSize (props g) then (Returned, g)
            else if new_capacity = capacity then (Returned, g)
            else
              (case resize E new_capacity raise_on_error g of
                 (Raised e, g') \<Rightarrow> (Raised e, g')
               | (Returned, g') \<Rightarrow>
                   (Returned,
                    cooldown_timestamp stamp
                      (adjustment_type @ '' : '' @ str_int adjustment) g'))))"


section \<open>Notions of the specification, and example inputs\<close>

text \<open>
  Division that truncates toward zero, as the specification words the percentage
  adjustment; used only to compare the code with it.
\<close>

definition spec_truncate_div :: "int \<Rightarrow> int \<Rightarrow> int" where
  "spec_truncate_div a b = sgn a * sgn b * (\<bar>a\<bar> div \<bar>b\<bar>)"


text \<open>An environment where every call succeeds, and one where every call fails.\<close>

definition env_ok :: env where
  "env_ok = \<lparr>create_result = (\<lambda>_ _. None), destroy_result = (\<lambda>_ _. None), ref_id = (\<lambda>n. n)\<rparr>"

definition env_boom :: env where
  "env_boom = \<lparr>create_result = (\<lambda>_ _. Some ''boom''), destroy_result = (\<lambda>_ _. Some ''boom''),
     ref_id = (\<lambda>n. n)\<rparr>"

text \<open>A group named \<open>g\<close> without load balancers.\<close>

definition group_of :: "int \<Rightarrow> int \<Rightarrow> int option \<Rightarrow> int option \<Rightarrow> string option \<Rightarrow> (int \<times> string) option \<Rightarrow> group" where
  "group_of mn mx cd dc rid md =
     \<lparr>name = ''g'',
      props = \<lparr>MinSize = mn, MaxSize = mx, Cooldown = cd, DesiredCapacity = dc,
                LoadBalancerNames = []\<rparr>,
      resource_id = rid, metadata = md, trace = []\<rparr>"


text \<open>
  The numeric index of a member in the specification's words: the decimal number after the
  last \<open>-\<close> of its name. The code never computes it.
\<close>

definition digit_val :: "char \<Rightarrow> nat option" where
  "digit_val ch = (if CHR ''0'' \<le> ch \<and> ch \<le> CHR ''9'' then Some (of_char ch - 48) else None)"

fun parse_nat :: "nat \<Rightarrow> string \<Rightarrow> nat option" where
  "parse_nat acc [] = Some acc"
| "parse_nat acc (ch # cs) =
     (case digit_val ch of None \<Rightarrow> None | Some d \<Rightarrow> parse_nat (10 * acc + d) cs)"

definition spec_member_index :: "string \<Rightarrow> nat option" where
  "spec_member_index nm =
     (let suffix = rev (takeWhile (\<lambda>ch. ch \<noteq> CHR ''-'') (rev nm))
      in if suffix = [] then None else parse_nat 0 suffix)"


text \<open>An environment where the creation of one named member fails.\<close>

definition env_fail_on :: "string \<Rightarrow> env" where
  "env_fail_on nm =
     \<lparr>create_result = (\<lambda>_ n. if n = nm then Some ''boom'' else None),
      destroy_result = (\<lambda>_ _. None), ref_id = (\<lambda>n. n)\<rparr>"

text \<open>The members whose creation succeeded, read off a trace.\<close>

fun successfully_created :: "event list \<Rightarrow> string list" where
  "successfully_created [] = []"
| "successfully_created (Create n None # es) = n # successfully_created es"
| "successfully_created (e # es) = successfully_created es"


section \<open>Strings and lists\<close>







lemma remove1_last_sorted: "sorted (ys @ [v]) \<Longrightarrow> remove1 v (ys @ [v]) = ys"
proof (induction ys)
  case Nil
  then show ?case by simp
next
  case (Cons a ys)
  show ?case
  proof (cases "a = v")
    case True
    with Cons.prems have "\<forall>y\<in>set ys. y = v"
      by (auto simp: sorted_append intro: antisym)
    then have "ys = replicate (length ys) v"
      by (simp add: replicate_length_same)
    then have "ys @ [v] = v # ys"
      by (metis replicate_append_same)
    with True show ?thesis by simp
  next
    case False
    with Cons show ?thesis by simp
  qed
qed

lemma fold_remove1_sorted:
  "sorted xs \<Longrightarrow> fold remove1 (rev (drop k xs)) xs = take k xs"
proof (induction xs rule: rev_induct)
  case Nil
  then show ?case by simp
next
  case (snoc v ys)
  show ?case
  proof (cases "k \<le> length ys")
    case True
    from snoc.prems have s: "sorted ys" by (simp add: sorted_append)
    from True have "fold remove1 (rev (drop k (ys @ [v]))) (ys @ [v])
        = fold remove1 (rev (drop k ys)) (remove1 v (ys @ [v]))"
      by simp
    also have "\<dots> = fold remove1 (rev (drop k ys)) ys"
      using snoc.prems by (simp only: remove1_last_sorted)
    also have "\<dots> = take k ys" using snoc.IH s by simp
    finally show ?thesis using True by simp
  next
    case False
    then show ?thesis by simp
  qed
qed

section \<open>The two loops and resize\<close>

lemma shrink_fst: "fst (shrink E vs il g) = fold remove1 vs il"
  by (induction vs arbitrary: il g) (simp_all add: Let_def)

lemma shrink_frame:
  "name (snd (shrink E vs il g)) = name g \<and> props (snd (shrink E vs il g)) = props g
   \<and> metadata (snd (shrink E vs il g)) = metadata g"
  by (induction vs arbitrary: il g) (simp_all add: Let_def)

lemma shrink_resource_id:
  "resource_id (snd (shrink E vs il g)) =
     (if vs = [] then resource_id g else Some (join_comma (fold remove1 vs il)))"
  by (induction vs arbitrary: il g) (simp_all add: Let_def)

lemma shrink_trace:
  "\<exists>rs. length rs = length vs \<and>
     trace (snd (shrink E vs il g)) = trace g @ map (\<lambda>(v, r). Destroy v r) (zip vs rs)"
proof (induction vs arbitrary: il g)
  case Nil
  then show ?case by simp
next
  case (Cons v vs)
  let ?r = "destroy_result E (trace g) v"
  let ?g2 = "g\<lparr>trace := trace g @ [Destroy v ?r], resource_id := Some (join_comma (remove1 v il))\<rparr>"
  from Cons.IH [of "remove1 v il" ?g2] obtain rs where
    rs: "length rs = length vs"
      "trace (snd (shrink E vs (remove1 v il) ?g2)) = trace ?g2 @ map (\<lambda>(v, r). Destroy v r) (zip vs rs)"
    by blast
  have "length (?r # rs) = length (v # vs)" using rs by simp
  moreover have "trace (snd (shrink E (v # vs) il g))
      = trace g @ map (\<lambda>(v, r). Destroy v r) (zip (v # vs) (?r # rs))"
    using rs by (simp add: Let_def)
  ultimately show ?case by blast
qed

lemma grow_frame_snd:
  "name (snd (snd (grow E roe xs il g))) = name g
   \<and> props (snd (snd (grow E roe xs il g))) = props g
   \<and> metadata (snd (snd (grow E roe xs il g))) = metadata g"
  by (induction xs arbitrary: il g) (auto simp: Let_def split: option.split)

lemma grow_frame:
  "grow E roe xs il g = (out, il', g') \<Longrightarrow>
     name g' = name g \<and> props g' = props g \<and> metadata g' = metadata g"
  using grow_frame_snd [of E roe xs il g] by simp

lemma grow_char:
  "grow E roe xs il g = (out, il', g') \<Longrightarrow>
   \<exists>rs. length rs \<le> length xs
     \<and> trace g' = trace g @ map (\<lambda>(x, r). Create (member_name (name g) x) r) (zip xs rs)
     \<and> il' = il @ map (member_name (name g)) (take (length rs) xs)
     \<and> resource_id g' = (if rs = [] then resource_id g else Some (join_comma il'))
     \<and> (case out of
          Returned \<Rightarrow> length rs = length xs \<and> (roe \<longrightarrow> (\<forall>r\<in>set rs. r = None))
        | Raised e \<Rightarrow> roe \<and> rs \<noteq> [] \<and> (\<forall>r\<in>set (butlast rs). r = None)
                      \<and> (\<exists>msg. last rs = Some msg \<and> e = NestedResourceFailure msg))"
proof (induction xs arbitrary: il g)
  case Nil
  then show ?case by auto
next
  case (Cons x xs)
  let ?nm = "member_name (name g) x"
  let ?il = "il @ [?nm]"
  let ?r = "create_result E (trace g) ?nm"
  let ?g2 = "g\<lparr>resource_id := Some (join_comma ?il), trace := trace g @ [Create ?nm ?r]\<rparr>"
  show ?case
  proof (cases "roe \<and> ?r \<noteq> None")
    case True
    then obtain msg where msg: "?r = Some msg" by auto
    with True Cons.prems have res: "out = Raised (NestedResourceFailure msg)" "il' = ?il" "g' = ?g2"
      by (auto simp: Let_def)
    show ?thesis
      by (rule exI [of _ "[?r]"]) (simp add: res msg True)
  next
    case False
    with Cons.prems have rec: "grow E roe xs ?il ?g2 = (out, il', g')"
      by (auto simp: Let_def split: option.splits if_splits)
    from Cons.IH [OF rec] obtain rs where rs:
      "length rs \<le> length xs"
      "trace g' = trace ?g2 @ map (\<lambda>(x, r). Create (member_name (name ?g2) x) r) (zip xs rs)"
      "il' = ?il @ map (member_name (name ?g2)) (take (length rs) xs)"
      "resource_id g' = (if rs = [] then resource_id ?g2 else Some (join_comma il'))"
      "(case out of
          Returned \<Rightarrow> length rs = length xs \<and> (roe \<longrightarrow> (\<forall>r\<in>set rs. r = None))
        | Raised e \<Rightarrow> roe \<and> rs \<noteq> [] \<and> (\<forall>r\<in>set (butlast rs). r = None)
                      \<and> (\<exists>msg. last rs = Some msg \<and> e = NestedResourceFailure msg))"
      by (elim exE conjE) (rule that)
    have a: "length (?r # rs) \<le> length (x # xs)" using rs(1) by simp
    have b: "trace g' = trace g @ map (\<lambda>(x, r). Create (member_name (name g) x) r) (zip (x # xs) (?r # rs))"
      using rs(2) by simp
    have c: "il' = il @ map (member_name (name g)) (take (length (?r # rs)) (x # xs))"
      using rs(3) by simp
    have d: "resource_id g' = (if ?r # rs = [] then resource_id g else Some (join_comma il'))"
      using rs(3,4) by simp
    have e: "(case out of
          Returned \<Rightarrow> length (?r # rs) = length (x # xs) \<and> (roe \<longrightarrow> (\<forall>r\<in>set (?r # rs). r = None))
        | Raised e \<Rightarrow> roe \<and> ?r # rs \<noteq> [] \<and> (\<forall>r\<in>set (butlast (?r # rs)). r = None)
                      \<and> (\<exists>msg. last (?r # rs) = Some msg \<and> e = NestedResourceFailure msg))"
    proof (cases out)
      case Returned
      with rs(5) False show ?thesis by auto
    next
      case (Raised ex)
      with rs(5) False show ?thesis by auto
    qed
    show ?thesis
      by (rule exI [of _ "?r # rs"]) (intro conjI a b c d e)
  qed
qed

lemma reload_lbs_frame:
  "name (reload_lbs E il g) = name g \<and> props (reload_lbs E il g) = props g
   \<and> metadata (reload_lbs E il g) = metadata g \<and> resource_id (reload_lbs E il g) = resource_id g"
  by (simp add: reload_lbs_def Let_def)

lemma resize_frame:
  "name (snd (resize E k roe g)) = name g \<and> props (snd (resize E k roe g)) = props g
   \<and> metadata (snd (resize E k roe g)) = metadata g"
proof -
  let ?il = "read_inst_list (resource_id g)"
  show ?thesis
  proof (cases "k = int (length ?il)")
    case True
    then show ?thesis by (simp add: resize_def)
  next
    case ne: False
    show ?thesis
    proof (cases "k > int (length ?il)")
      case True
      obtain out il' g' where gr: "grow E roe [length ?il ..< nat k] ?il g = (out, il', g')"
        by (metis prod_cases3)
      from grow_frame [OF gr] ne True gr show ?thesis
        by (cases out) (simp_all add: resize_def reload_lbs_frame)
    next
      case False
      obtain il' g' where sh: "shrink E (rev (py_slice_from ?il k)) ?il g = (il', g')"
        by (metis surj_pair)
      from shrink_frame [of E "rev (py_slice_from ?il k)" ?il g] sh ne False show ?thesis
        by (simp add: resize_def reload_lbs_frame)
    qed
  qed
qed

lemma sorted_read_inst_list: "sorted (read_inst_list rid)"
  by (simp add: read_inst_list_def split: option.split)




lemma resize_shrink:
  assumes L: "L = read_inst_list (resource_id g)"
    and ge: "0 \<le> k" and lt: "k < int (length L)"
  shows "fst (resize E k roe g) = Returned"
    and "resource_id (snd (resize E k roe g)) = Some (join_comma (take (nat k) L))"
    and "\<exists>rs. length rs = length L - nat k \<and>
           trace (snd (resize E k roe g)) =
             trace g @ map (\<lambda>(v, r). Destroy v r) (zip (rev (drop (nat k) L)) rs)
             @ map (\<lambda>lb. Reload lb (map (ref_id E) (take (nat k) L))) (LoadBalancerNames (props g))"
proof -
  let ?vs = "rev (drop (nat k) L)"
  have vs: "rev (py_slice_from L k) = ?vs" using ge by (simp add: py_slice_from_def)
  have ne: "?vs \<noteq> []" using ge lt by simp
  have fr: "fold remove1 ?vs L = take (nat k) L"
    using sorted_read_inst_list [of "resource_id g"] L by (simp add: fold_remove1_sorted)
  have il: "fst (shrink E ?vs L g) = take (nat k) L"
    by (simp add: shrink_fst fr)
  have rs: "resize E k roe g =
      (Returned, reload_lbs E (take (nat k) L) (snd (shrink E ?vs L g)))"
    using lt L vs il by (auto simp: resize_def Let_def split: prod.split)
  show "fst (resize E k roe g) = Returned" by (simp add: rs)
  show "resource_id (snd (resize E k roe g)) = Some (join_comma (take (nat k) L))"
    using ne by (simp add: rs reload_lbs_frame shrink_resource_id fr)
  from shrink_trace [of ?vs E L g] obtain rs' where
    "length rs' = length ?vs"
    "trace (snd (shrink E ?vs L g)) = trace g @ map (\<lambda>(v, r). Destroy v r) (zip ?vs rs')"
    by blast
  then have "length rs' = length L - nat k \<and>
           trace (snd (resize E k roe g)) =
             trace g @ map (\<lambda>(v, r). Destroy v r) (zip (rev (drop (nat k) L)) rs')
             @ map (\<lambda>lb. Reload lb (map (ref_id E) (take (nat k) L))) (LoadBalancerNames (props g))"
    by (simp add: rs reload_lbs_def shrink_frame)
  then show "\<exists>rs. length rs = length L - nat k \<and>
           trace (snd (resize E k roe g)) =
             trace g @ map (\<lambda>(v, r). Destroy v r) (zip (rev (drop (nat k) L)) rs)
             @ map (\<lambda>lb. Reload lb (map (ref_id E) (take (nat k) L))) (LoadBalancerNames (props g))"
    by blast
qed


lemma zip_shorter: "length rs \<le> length xs \<Longrightarrow> zip xs rs = zip (take (length rs) xs) rs"
proof -
  have "zip xs rs = take (length rs) (zip xs rs)" by simp
  also have "\<dots> = zip (take (length rs) xs) rs" by (simp add: take_zip)
  finally show ?thesis .
qed

lemma resize_grow:
  assumes L: "L = read_inst_list (resource_id g)"
    and gt: "int (length L) < k"
    and r: "resize E k roe g = (out, g')"
  shows "\<exists>rs. rs \<noteq> [] \<and> length L + length rs \<le> nat k
     \<and> resource_id g' =
         Some (join_comma (L @ map (member_name (name g)) [length L ..< length L + length rs]))
     \<and> trace g' =
         trace g
         @ map (\<lambda>(x, r). Create (member_name (name g) x) r) (zip [length L ..< length L + length rs] rs)
         @ (if out = Returned
            then map (\<lambda>lb. Reload lb (map (ref_id E)
                   (L @ map (member_name (name g)) [length L ..< length L + length rs])))
                   (LoadBalancerNames (props g))
            else [])
     \<and> (case out of
          Returned \<Rightarrow> length L + length rs = nat k \<and> (roe \<longrightarrow> (\<forall>r\<in>set rs. r = None))
        | Raised e \<Rightarrow> roe \<and> (\<forall>r\<in>set (butlast rs). r = None)
                      \<and> (\<exists>msg. last rs = Some msg \<and> e = NestedResourceFailure msg))"
proof -
  let ?xs = "[length L ..< nat k]"
  obtain out0 il' g0 where gr: "grow E roe ?xs L g = (out0, il', g0)"
    by (metis prod_cases3)
  from grow_char [OF gr] obtain rs where rs:
    "length rs \<le> length ?xs"
    "trace g0 = trace g @ map (\<lambda>(x, r). Create (member_name (name g) x) r) (zip ?xs rs)"
    "il' = L @ map (member_name (name g)) (take (length rs) ?xs)"
    "resource_id g0 = (if rs = [] then resource_id g else Some (join_comma il'))"
    "(case out0 of
        Returned \<Rightarrow> length rs = length ?xs \<and> (roe \<longrightarrow> (\<forall>r\<in>set rs. r = None))
      | Raised e \<Rightarrow> roe \<and> rs \<noteq> [] \<and> (\<forall>r\<in>set (butlast rs). r = None)
                    \<and> (\<exists>msg. last rs = Some msg \<and> e = NestedResourceFailure msg))"
    by (elim exE conjE) (rule that)
  let ?ys = "[length L ..< length L + length rs]"
  have len: "length L + length rs \<le> nat k" using rs(1) gt by simp
  have tk: "take (length rs) ?xs = ?ys" using len by (simp add: take_upt)
  have zp: "zip ?xs rs = zip ?ys rs" using zip_shorter [OF rs(1)] tk by simp
  have il: "il' = L @ map (member_name (name g)) ?ys" using rs(3) tk by simp
  have out: "out = out0" using r gr gt L
    by (cases out0) (simp_all add: resize_def Let_def)
  have ne: "rs \<noteq> []"
  proof (cases out0)
    case Returned
    with rs(5) gt show ?thesis by auto
  next
    case (Raised e)
    with rs(5) show ?thesis by simp
  qed
  have g': "g' = (if out = Returned then reload_lbs E il' g0 else g0)"
    using r gr gt L by (cases out0) (auto simp: resize_def Let_def)
  have a: "resource_id g' = Some (join_comma (L @ map (member_name (name g)) ?ys))"
    using g' rs(4) ne il by (simp add: reload_lbs_frame)
  have pr: "props g0 = props g" using grow_frame [OF gr] by simp
  have b: "trace g' = trace g
         @ map (\<lambda>(x, r). Create (member_name (name g) x) r) (zip ?ys rs)
         @ (if out = Returned
            then map (\<lambda>lb. Reload lb (map (ref_id E) (L @ map (member_name (name g)) ?ys)))
                   (LoadBalancerNames (props g))
            else [])"
    using g' rs(2) zp il pr by (simp add: reload_lbs_def)
  have c: "(case out of
          Returned \<Rightarrow> length L + length rs = nat k \<and> (roe \<longrightarrow> (\<forall>r\<in>set rs. r = None))
        | Raised e \<Rightarrow> roe \<and> (\<forall>r\<in>set (butlast rs). r = None)
                      \<and> (\<exists>msg. last rs = Some msg \<and> e = NestedResourceFailure msg))"
  proof (cases out0)
    case Returned
    with rs(5) out gt show ?thesis by auto
  next
    case (Raised e)
    with rs(5) out show ?thesis by simp
  qed
  show ?thesis
    by (rule exI [of _ rs]) (intro conjI ne len a b c)
qed

section \<open>Bounds rejection\<close>

text \<open>
  Claim C5. When the target computed by \<^verbatim>\<open>adjust\<close> is greater than MaxSize or less than
  MinSize, \<^verbatim>\<open>adjust\<close> returns normally and the whole group (membership, cooldown record,
  trace of outside calls) is what it was: nothing is resized and the target is not clamped.
\<close>

theorem C5_bounds_rejection:
  assumes "new_capacity_of t (int (length (read_inst_list (resource_id g)))) a > MaxSize (props g)
         \<or> new_capacity_of t (int (length (read_inst_list (resource_id g)))) a < MinSize (props g)"
  shows "adjust E now stamp a t roe g = (Returned, g)"
  using assms by (auto simp: adjust_def Let_def)

text \<open>
  Witness for C5, the example of the specification: MaxSize 4, three members, a change of
  \<open>+2\<close> gives target 5 and is dropped.
\<close>

theorem C5_bounds_rejection_witness:
  "new_capacity_of ''ChangeInCapacity''
      (int (length (read_inst_list (resource_id (group_of 1 4 None None (Some ''g-0,g-1,g-2'') None))))) 2 = 5
   \<and> adjust env_ok 0 0 2 ''ChangeInCapacity'' False (group_of 1 4 None None (Some ''g-0,g-1,g-2'') None)
       = (Returned, group_of 1 4 None None (Some ''g-0,g-1,g-2'') None)"
proof -
  let ?g = "group_of 1 4 None None (Some ''g-0,g-1,g-2'') None"
  have c: "new_capacity_of ''ChangeInCapacity'' (int (length (read_inst_list (resource_id ?g)))) 2 = 5"
    by code_simp
  have m: "MaxSize (props ?g) = 4" by (simp add: group_of_def)
  have "new_capacity_of ''ChangeInCapacity'' (int (length (read_inst_list (resource_id ?g)))) 2 > MaxSize (props ?g)"
    unfolding c m by simp
  then have "adjust env_ok 0 0 2 ''ChangeInCapacity'' False ?g = (Returned, ?g)"
    by (intro C5_bounds_rejection disjI1)
  with c show ?thesis by simp
qed

section \<open>The cooldown record is written only after a resize\<close>

text \<open>
  Claim C10. When \<^verbatim>\<open>adjust\<close> returns without calling \<^verbatim>\<open>resize\<close> (cooldown in progress,
  target out of bounds, or target equal to the capacity) the group, and so its cooldown
  record, is unchanged. If the record differs after \<^verbatim>\<open>adjust\<close>, then none of these three
  cases applied, \<^verbatim>\<open>resize\<close> was called and returned, and the record holds the new
  timestamp and the reason built from the adjustment type and value.
\<close>

theorem C10_cooldown_record_frame:
  assumes c: "c = int (length (read_inst_list (resource_id g)))"
    and target: "target = new_capacity_of t c a"
  shows "(cooldown_inprogress now g \<or> target > MaxSize (props g) \<or> target < MinSize (props g)
            \<or> target = c
          \<longrightarrow> adjust E now stamp a t roe g = (Returned, g))
       \<and> (metadata (snd (adjust E now stamp a t roe g)) \<noteq> metadata g
          \<longrightarrow> \<not> cooldown_inprogress now g \<and> MinSize (props g) \<le> target \<and> target \<le> MaxSize (props g)
              \<and> target \<noteq> c \<and> fst (resize E target roe g) = Returned
              \<and> metadata (snd (adjust E now stamp a t roe g)) = Some (stamp, t @ '' : '' @ str_int a))"
proof (intro conjI impI)
  assume "cooldown_inprogress now g \<or> target > MaxSize (props g) \<or> target < MinSize (props g) \<or> target = c"
  then show "adjust E now stamp a t roe g = (Returned, g)"
    using c target by (auto simp: adjust_def Let_def)
next
  assume ch: "metadata (snd (adjust E now stamp a t roe g)) \<noteq> metadata g"
  have skip: "\<not> (cooldown_inprogress now g \<or> target > MaxSize (props g) \<or> target < MinSize (props g) \<or> target = c)"
  proof
    assume "cooldown_inprogress now g \<or> target > MaxSize (props g) \<or> target < MinSize (props g) \<or> target = c"
    then have "adjust E now stamp a t roe g = (Returned, g)"
      using c target by (auto simp: adjust_def Let_def)
    with ch show False by simp
  qed
  obtain out g' where r: "resize E target roe g = (out, g')" by (metis surj_pair)
  have md: "metadata g' = metadata g" using resize_frame [of E target roe g] r by simp
  have adj: "adjust E now stamp a t roe g =
      (case out of Raised e \<Rightarrow> (Raised e, g')
       | Returned \<Rightarrow> (Returned, cooldown_timestamp stamp (t @ '' : '' @ str_int a) g'))"
    using skip c target r by (simp add: adjust_def Let_def split: outcome.split)
  have out: "out = Returned"
  proof (cases out)
    case Returned then show ?thesis .
  next
    case (Raised e)
    with adj md ch show ?thesis by simp
  qed
  show "\<not> cooldown_inprogress now g" "MinSize (props g) \<le> target" "target \<le> MaxSize (props g)"
    "target \<noteq> c" using skip by auto
  show "fst (resize E target roe g) = Returned" using r out by simp
  show "metadata (snd (adjust E now stamp a t roe g)) = Some (stamp, t @ '' : '' @ str_int a)"
    using adj out by (simp add: cooldown_timestamp_def)
qed

text \<open>
  Witness for C10: one member, a change of \<open>0\<close> leaves the record, a change of \<open>+1\<close>
  resizes and stamps it.
\<close>

theorem C10_cooldown_record_frame_witness:
  "adjust env_ok 0 7 0 ''ChangeInCapacity'' False (group_of 1 5 None None (Some ''g-0'') (Some (3, ''r'')))
     = (Returned, group_of 1 5 None None (Some ''g-0'') (Some (3, ''r'')))
   \<and> metadata (snd (adjust env_ok 0 7 1 ''ChangeInCapacity'' False
         (group_of 1 5 None None (Some ''g-0'') (Some (3, ''r''))))) = Some (7, ''ChangeInCapacity : 1'')
   \<and> fst (resize env_ok 2 False (group_of 1 5 None None (Some ''g-0'') (Some (3, ''r'')))) = Returned"
proof -
  let ?g = "group_of 1 5 None None (Some ''g-0'') (Some (3, ''r''))"
  have c: "int (length (read_inst_list (resource_id ?g))) = 1" by code_simp
  have t0: "new_capacity_of ''ChangeInCapacity'' 1 0 = 1" by code_simp
  have t1: "new_capacity_of ''ChangeInCapacity'' 1 1 = 2" by code_simp
  have ne: "metadata (snd (adjust env_ok 0 7 1 ''ChangeInCapacity'' False ?g)) \<noteq> metadata ?g"
    by code_simp
  have s: "str_int 1 = ''1''" by code_simp
  from C10_cooldown_record_frame [of 1 ?g 1 "''ChangeInCapacity''" 0 0 env_ok 7 False] c t0
  have a: "adjust env_ok 0 7 0 ''ChangeInCapacity'' False ?g = (Returned, ?g)" by simp
  from C10_cooldown_record_frame [of 1 ?g 2 "''ChangeInCapacity''" 1 0 env_ok 7 False] c t1 ne
  have b: "fst (resize env_ok 2 False ?g) = Returned
     \<and> metadata (snd (adjust env_ok 0 7 1 ''ChangeInCapacity'' False ?g))
         = Some (7, ''ChangeInCapacity'' @ '' : '' @ str_int 1)"
    by simp
  from a b s show ?thesis by simp
qed

section \<open>Cooldown suppression\<close>

text \<open>
  Claim C6. With a cooldown record stamped at \<open>ts\<close> and the window \<open>w\<close> taken from the
  Cooldown property: while less than \<open>w\<close> has elapsed, \<^verbatim>\<open>adjust\<close> returns normally and
  the group is unchanged (no resize, no outside call); once at least \<open>w\<close> has elapsed,
  the cooldown is not in progress and the same call goes through the bounds check,
  \<^verbatim>\<open>resize\<close> and the new timestamp.
\<close>

theorem C6_cooldown_suppression:
  assumes md: "metadata g = Some (ts, reason)"
    and past: "ts \<le> now"
    and w: "w = (case Cooldown (props g) of Some c \<Rightarrow> max 0 c | None \<Rightarrow> 0)"
    and c: "c = int (length (read_inst_list (resource_id g)))"
    and target: "target = new_capacity_of t c a"
  shows "(now - ts < w \<longrightarrow> adjust E now stamp a t roe g = (Returned, g))
       \<and> (w \<le> now - ts \<longrightarrow>
            \<not> cooldown_inprogress now g
            \<and> adjust E now stamp a t roe g =
               (if target > MaxSize (props g) \<or> target < MinSize (props g) \<or> target = c
                then (Returned, g)
                else case resize E target roe g of
                       (Raised e, g') \<Rightarrow> (Raised e, g')
                     | (Returned, g') \<Rightarrow>
                         (Returned, g'\<lparr>metadata := Some (stamp, t @ '' : '' @ str_int a)\<rparr>)))"
proof (intro conjI impI)
  assume less: "now - ts < w"
  with past have "w \<noteq> 0" by simp
  with less md w have "cooldown_inprogress now g"
    by (simp add: cooldown_inprogress_def is_older_than_def)
  then show "adjust E now stamp a t roe g = (Returned, g)"
    by (simp add: adjust_def)
next
  assume ge: "w \<le> now - ts"
  with md w show np: "\<not> cooldown_inprogress now g"
    by (simp add: cooldown_inprogress_def is_older_than_def)
  obtain out g' where r: "resize E target roe g = (out, g')" by (metis surj_pair)
  show "adjust E now stamp a t roe g =
     (if target > MaxSize (props g) \<or> target < MinSize (props g) \<or> target = c
      then (Returned, g)
      else case resize E target roe g of
             (Raised e, g') \<Rightarrow> (Raised e, g')
           | (Returned, g') \<Rightarrow>
               (Returned, g'\<lparr>metadata := Some (stamp, t @ '' : '' @ str_int a)\<rparr>))"
    using np c target r
    by (cases out) (auto simp: adjust_def Let_def cooldown_timestamp_def)
qed

text \<open>
  Witness for C6: window 60, record stamped at 100; at 130 the call is suppressed, at 160
  it grows the group from one member to two.
\<close>

theorem C6_cooldown_suppression_witness:
  "adjust env_ok 130 131 1 ''ChangeInCapacity'' False
       (group_of 1 5 (Some 60) None (Some ''g-0'') (Some (100, ''r'')))
     = (Returned, group_of 1 5 (Some 60) None (Some ''g-0'') (Some (100, ''r'')))
   \<and> \<not> cooldown_inprogress 160 (group_of 1 5 (Some 60) None (Some ''g-0'') (Some (100, ''r'')))
   \<and> adjust env_ok 160 161 1 ''ChangeInCapacity'' False
       (group_of 1 5 (Some 60) None (Some ''g-0'') (Some (100, ''r'')))
     = (Returned,
        (group_of 1 5 (Some 60) None (Some ''g-0,g-1'') (Some (161, ''ChangeInCapacity : 1'')))
          \<lparr>trace := [Create ''g-1'' None]\<rparr>)"
proof -
  let ?g = "group_of 1 5 (Some 60) None (Some ''g-0'') (Some (100, ''r''))"
  have md: "metadata ?g = Some (100, ''r'')" by (simp add: group_of_def)
  have w: "(60::int) = (case Cooldown (props ?g) of Some c \<Rightarrow> max 0 c | None \<Rightarrow> 0)"
    by (simp add: group_of_def)
  have c: "(1::int) = int (length (read_inst_list (resource_id ?g)))" by code_simp
  have t: "(2::int) = new_capacity_of ''ChangeInCapacity'' 1 1" by code_simp
  have r: "resize env_ok 2 False ?g
     = (Returned, (group_of 1 5 (Some 60) None (Some ''g-0,g-1'') (Some (100, ''r'')))
          \<lparr>trace := [Create ''g-1'' None]\<rparr>)"
    by code_simp
  have s: "str_int 1 = ''1''" by code_simp
  have b1: "MaxSize (props ?g) = 5" "MinSize (props ?g) = 1" by (simp_all add: group_of_def)
  from C6_cooldown_suppression [OF md _ w c t, of 130 env_ok 131 False]
  have a: "adjust env_ok 130 131 1 ''ChangeInCapacity'' False ?g = (Returned, ?g)" by simp
  from C6_cooldown_suppression [OF md _ w c t, of 160 env_ok 161 False]
  have b: "\<not> cooldown_inprogress 160 ?g
     \<and> adjust env_ok 160 161 1 ''ChangeInCapacity'' False ?g
       = (Returned, (group_of 1 5 (Some 60) None (Some ''g-0,g-1'') (Some (161, ''ChangeInCapacity : 1'')))
          \<lparr>trace := [Create ''g-1'' None]\<rparr>)"
    by (simp add: r s b1) (simp add: group_of_def)
  from a b show ?thesis by simp
qed

section \<open>Percentage adjustments\<close>

text \<open>
  Counterexample to C3 as stated: with three members and \<open>-50\<close> percent the code computes
  \<open>3 + (-150 div 100) = 3 + (-2) = 1\<close> and shrinks to one member, where truncation toward
  zero would give \<open>3 + (-1) = 2\<close>.
\<close>

theorem C3_counterexample:
  "new_capacity_of ''PercentChangeInCapacity'' 3 (- 50) = 1
   \<and> 3 + spec_truncate_div (3 * (- 50)) 100 = 2
   \<and> resource_id (snd (adjust env_ok 0 0 (- 50) ''PercentChangeInCapacity'' False
        (group_of 1 5 None None (Some ''g-0,g-1,g-2'') None))) = Some ''g-0''"
  by code_simp

text \<open>
  Claim C3, amended. For a percentage adjustment the target is \<open>c + q\<close> where \<open>q\<close> is
  \<open>c * p / 100\<close> rounded toward minus infinity (\<open>100 * q \<le> c * p < 100 * q + 100\<close>); for
  \<open>p \<ge> 0\<close> this is the truncated quotient. When the cooldown is not in progress and the
  target is within bounds and differs from the capacity, \<^verbatim>\<open>adjust\<close> resizes to that target.
\<close>

theorem C3_percent_floor_division:
  assumes t: "t \<noteq> ''ChangeInCapacity''" "t \<noteq> ''ExactCapacity''"
    and c: "c = int (length (read_inst_list (resource_id g)))"
    and target: "target = new_capacity_of t c p"
  shows "100 * (target - c) \<le> c * p \<and> c * p < 100 * (target - c) + 100
       \<and> (0 \<le> p \<longrightarrow> target = c + spec_truncate_div (c * p) 100)
       \<and> (\<not> cooldown_inprogress now g \<and> MinSize (props g) \<le> target \<and> target \<le> MaxSize (props g)
            \<and> target \<noteq> c
          \<longrightarrow> adjust E now stamp p t roe g =
              (case resize E target roe g of
                 (Raised e, g') \<Rightarrow> (Raised e, g')
               | (Returned, g') \<Rightarrow>
                   (Returned, g'\<lparr>metadata := Some (stamp, t @ '' : '' @ str_int p)\<rparr>)))"
proof (intro conjI impI)
  have tg: "target = c + c * p div 100" using t target by (simp add: new_capacity_of_def)
  have fl: "100 * (x div 100) \<le> x \<and> x < 100 * (x div 100) + 100" for x :: int
    by presburger
  show "100 * (target - c) \<le> c * p" using fl [of "c * p"] unfolding tg by simp
  show "c * p < 100 * (target - c) + 100" using fl [of "c * p"] unfolding tg by simp
  {
    assume "0 \<le> p"
    moreover have "0 \<le> c" using c by simp
    ultimately have "0 \<le> c * p" by simp
    moreover have "0 \<le> x \<Longrightarrow> spec_truncate_div x 100 = x div 100" for x :: int
      by (cases "x = 0") (simp_all add: spec_truncate_div_def sgn_if)
    ultimately show "target = c + spec_truncate_div (c * p) 100"
      unfolding tg by simp
  }
  {
    assume a: "\<not> cooldown_inprogress now g \<and> MinSize (props g) \<le> target \<and> target \<le> MaxSize (props g)
            \<and> target \<noteq> c"
    obtain out g' where r: "resize E target roe g = (out, g')" by (metis surj_pair)
    show "adjust E now stamp p t roe g =
              (case resize E target roe g of
                 (Raised e, g') \<Rightarrow> (Raised e, g')
               | (Returned, g') \<Rightarrow>
                   (Returned, g'\<lparr>metadata := Some (stamp, t @ '' : '' @ str_int p)\<rparr>))"
      using a c target r
      by (cases out) (auto simp: adjust_def Let_def cooldown_timestamp_def)
  }
qed

text \<open>
  Witness for C3 amended: \<open>-50\<close> percent of three members, and the specification's example
  of \<open>50\<close> percent of four.
\<close>

theorem C3_percent_floor_division_witness:
  "100 * (1 - 3) \<le> 3 * (- 50 :: int) \<and> 3 * (- 50 :: int) < 100 * (1 - 3) + 100
   \<and> new_capacity_of ''PercentChangeInCapacity'' 4 50 = 4 + spec_truncate_div (4 * 50) 100
   \<and> adjust env_ok 0 9 (- 50) ''PercentChangeInCapacity'' False
        (group_of 1 5 None None (Some ''g-0,g-1,g-2'') None)
      = (Returned,
         (group_of 1 5 None None (Some ''g-0'') (Some (9, ''PercentChangeInCapacity : -50'')))
           \<lparr>trace := [Destroy ''g-2'' None, Destroy ''g-1'' None]\<rparr>)"
proof -
  let ?g = "group_of 1 5 None None (Some ''g-0,g-1,g-2'') None"
  let ?g4 = "group_of 1 5 None None (Some ''g-0,g-1,g-2,g-3'') None"
  let ?t = "''PercentChangeInCapacity''"
  have t: "?t \<noteq> ''ChangeInCapacity''" "?t \<noteq> ''ExactCapacity''" by simp_all
  have c: "(3::int) = int (length (read_inst_list (resource_id ?g)))" by code_simp
  have c4: "(4::int) = int (length (read_inst_list (resource_id ?g4)))" by code_simp
  have tg: "(1::int) = new_capacity_of ?t 3 (- 50)" by code_simp
  have np: "\<not> cooldown_inprogress 0 ?g" by code_simp
  have b: "MaxSize (props ?g) = 5" "MinSize (props ?g) = 1" by (simp_all add: group_of_def)
  have r: "resize env_ok 1 False ?g
     = (Returned, (group_of 1 5 None None (Some ''g-0'') None)
          \<lparr>trace := [Destroy ''g-2'' None, Destroy ''g-1'' None]\<rparr>)"
    by code_simp
  have s: "str_int (- 50) = ''-50''" by code_simp
  from C3_percent_floor_division [OF t c tg, of 0 env_ok 9 False] np
  have a: "100 * (1 - 3) \<le> 3 * (- 50 :: int) \<and> 3 * (- 50 :: int) < 100 * (1 - 3) + 100
     \<and> adjust env_ok 0 9 (- 50) ?t False ?g
      = (Returned, (group_of 1 5 None None (Some ''g-0'') (Some (9, ''PercentChangeInCapacity : -50'')))
           \<lparr>trace := [Destroy ''g-2'' None, Destroy ''g-1'' None]\<rparr>)"
    by (simp add: r s b) (simp add: group_of_def)
  from C3_percent_floor_division [OF t c4 refl, of 50 0 env_ok 9 False]
  have "new_capacity_of ?t 4 50 = 4 + spec_truncate_div (4 * 50) 100" by simp
  with a show ?thesis by simp
qed

section \<open>Initial creation\<close>




section \<open>Reading the membership back\<close>

text \<open>
  Claim C1 at a group of eleven members: \<^verbatim>\<open>sorted\<close> orders the names as strings, so
  \<open>g-10\<close> comes before \<open>g-2\<close> and the list read back is not in index order. A
  \<^verbatim>\<open>resize\<close> to ten then destroys \<open>g-9\<close>, not the largest numbered member \<open>g-10\<close>.
\<close>

theorem C1_parse_order_at_eleven:
  "read_inst_list (Some ''g-0,g-1,g-2,g-3,g-4,g-5,g-6,g-7,g-8,g-9,g-10'')
     = [''g-0'', ''g-1'', ''g-10'', ''g-2'', ''g-3'', ''g-4'', ''g-5'', ''g-6'', ''g-7'', ''g-8'', ''g-9'']
   \<and> map spec_member_index (read_inst_list (Some ''g-0,g-1,g-2,g-3,g-4,g-5,g-6,g-7,g-8,g-9,g-10''))
     = [Some 0, Some 1, Some 10, Some 2, Some 3, Some 4, Some 5, Some 6, Some 7, Some 8, Some 9]
   \<and> trace (snd (resize env_ok 10 False
        (group_of 1 20 None None (Some ''g-0,g-1,g-2,g-3,g-4,g-5,g-6,g-7,g-8,g-9,g-10'') None)))
     = [Destroy ''g-9'' None]"
  by code_simp

text \<open>
  Claim C2 at two sequences of resizes that return normally from an empty group: after
  \<^verbatim>\<open>resize(11)\<close> and \<^verbatim>\<open>resize(10)\<close> the recorded indices are 0 to 8 and 10; after
  \<^verbatim>\<open>resize(1)\<close> and \<^verbatim>\<open>resize(0)\<close> the stored string is empty and reads back as one
  member with the empty name.
\<close>

theorem C2_gap_after_grow_and_shrink:
  "resize env_ok 11 False (group_of 1 20 None None None None)
     = (Returned, (group_of 1 20 None None (Some ''g-0,g-1,g-2,g-3,g-4,g-5,g-6,g-7,g-8,g-9,g-10'') None)
          \<lparr>trace := map (\<lambda>n. Create (member_name ''g'' n) None) [0, 1, 2, 3, 4, 5, 6, 7, 8, 9, 10]\<rparr>)
   \<and> fst (resize env_ok 10 False (snd (resize env_ok 11 False (group_of 1 20 None None None None))))
     = Returned
   \<and> map spec_member_index (read_inst_list (resource_id
        (snd (resize env_ok 10 False (snd (resize env_ok 11 False (group_of 1 20 None None None None)))))))
     = [Some 0, Some 1, Some 10, Some 2, Some 3, Some 4, Some 5, Some 6, Some 7, Some 8]
   \<and> read_inst_list (resource_id
        (snd (resize env_ok 0 False (snd (resize env_ok 1 False (group_of 1 20 None None None None))))))
     = ['''']"
  by code_simp

section \<open>Shrinking\<close>

text \<open>
  Claim C7. A shrink to \<open>k\<close> members returns normally whatever the \<^verbatim>\<open>destroy\<close> calls
  return; the stored membership is the first \<open>k\<close> names of the list read at the start,
  which does not depend on the results \<open>rs\<close> of the \<^verbatim>\<open>destroy\<close> calls, and every victim
  was passed to \<^verbatim>\<open>destroy\<close>, last name first.
\<close>

theorem C7_shrink_ignores_destroy_result:
  assumes "L = read_inst_list (resource_id g)"
    and "0 \<le> k" and "k < int (length L)"
  shows "fst (resize E k roe g) = Returned
       \<and> resource_id (snd (resize E k roe g)) = Some (join_comma (take (nat k) L))
       \<and> (\<exists>rs. length rs = length L - nat k \<and>
           trace (snd (resize E k roe g)) =
             trace g @ map (\<lambda>(v, r). Destroy v r) (zip (rev (drop (nat k) L)) rs)
             @ map (\<lambda>lb. Reload lb (map (ref_id E) (take (nat k) L))) (LoadBalancerNames (props g)))"
  using resize_shrink [OF assms] by blast

text \<open>Witness for C7: three members shrunk to one while every \<^verbatim>\<open>destroy\<close> fails.\<close>

theorem C7_shrink_ignores_destroy_result_witness:
  "resize env_boom 1 True (group_of 1 5 None None (Some ''g-0,g-1,g-2'') None)
     = (Returned, (group_of 1 5 None None (Some ''g-0'') None)
          \<lparr>trace := [Destroy ''g-2'' (Some ''boom''), Destroy ''g-1'' (Some ''boom'')]\<rparr>)
   \<and> Some ''g-0'' = Some (join_comma (take (nat 1)
        (read_inst_list (resource_id (group_of 1 5 None None (Some ''g-0,g-1,g-2'') None)))))"
proof -
  let ?g = "group_of 1 5 None None (Some ''g-0,g-1,g-2'') None"
  have l: "(1::int) < int (length (read_inst_list (resource_id ?g)))" by code_simp
  have e: "resize env_boom 1 True ?g
     = (Returned, (group_of 1 5 None None (Some ''g-0'') None)
          \<lparr>trace := [Destroy ''g-2'' (Some ''boom''), Destroy ''g-1'' (Some ''boom'')]\<rparr>)"
    by code_simp
  from C7_shrink_ignores_destroy_result [OF refl _ l, of env_boom True]
  have "resource_id (snd (resize env_boom 1 True ?g))
      = Some (join_comma (take (nat 1) (read_inst_list (resource_id ?g))))" by simp
  with e show ?thesis by (simp add: group_of_def)
qed

section \<open>Growing\<close>

text \<open>
  Counterexample to C4 as stated: growing an empty group to three with fail-fast, where the
  creation of \<open>g-1\<close> fails. The resize raises the nested failure, and the recorded set is
  \<open>g-0, g-1\<close>: it holds the failed member, not only the member created successfully.
\<close>

theorem C4_counterexample:
  "resize (env_fail_on ''g-1'') 3 True (group_of 1 5 None None None None)
     = (Raised (NestedResourceFailure ''boom''),
        (group_of 1 5 None None (Some ''g-0,g-1'') None)
          \<lparr>trace := [Create ''g-0'' None, Create ''g-1'' (Some ''boom'')]\<rparr>)
   \<and> read_inst_list (Some ''g-0,g-1'') = [''g-0'', ''g-1'']
   \<and> successfully_created [Create ''g-0'' None, Create ''g-1'' (Some ''boom'')] = [''g-0'']"
  by code_simp

text \<open>
  Claim C4, amended. During growth each new name is appended and stored before its
  \<^verbatim>\<open>create\<close> call. With \<open>rs\<close> the results of the \<^verbatim>\<open>create\<close> calls made: the stored
  membership is the old list followed by the names of all these calls. If the resize
  raises, fail-fast was set, the error is the nested failure carrying the message of the
  last call, every earlier call succeeded, and the failed member is the last recorded
  name. If it returns, all \<open>k\<close> names are recorded (and with fail-fast no call failed).
\<close>

theorem C4_grow_records_then_creates:
  assumes "L = read_inst_list (resource_id g)"
    and "int (length L) < k"
    and "resize E k roe g = (out, g')"
  shows "\<exists>rs. rs \<noteq> [] \<and> length L + length rs \<le> nat k
     \<and> resource_id g' =
         Some (join_comma (L @ map (member_name (name g)) [length L ..< length L + length rs]))
     \<and> trace g' =
         trace g
         @ map (\<lambda>(x, r). Create (member_name (name g) x) r) (zip [length L ..< length L + length rs] rs)
         @ (if out = Returned
            then map (\<lambda>lb. Reload lb (map (ref_id E)
                   (L @ map (member_name (name g)) [length L ..< length L + length rs])))
                   (LoadBalancerNames (props g))
            else [])
     \<and> (case out of
          Returned \<Rightarrow> length L + length rs = nat k \<and> (roe \<longrightarrow> (\<forall>r\<in>set rs. r = None))
        | Raised e \<Rightarrow> roe \<and> (\<forall>r\<in>set (butlast rs). r = None)
                      \<and> (\<exists>msg. last rs = Some msg \<and> e = NestedResourceFailure msg))"
  using assms by (rule resize_grow)

text \<open>Witness for C4 amended, at the input of the counterexample.\<close>

theorem C4_grow_records_then_creates_witness:
  "\<exists>rs. rs \<noteq> [] \<and> length rs \<le> 3
     \<and> Some ''g-0,g-1'' = Some (join_comma (map (member_name ''g'') [0 ..< length rs]))
     \<and> [Create ''g-0'' None, Create ''g-1'' (Some ''boom'')]
         = map (\<lambda>(x, r). Create (member_name ''g'' x) r) (zip [0 ..< length rs] rs)
     \<and> (\<forall>r\<in>set (butlast rs). r = None)
     \<and> (\<exists>msg. last rs = Some msg \<and> NestedResourceFailure ''boom'' = NestedResourceFailure msg)"
proof -
  let ?g = "group_of 1 5 None None None None"
  let ?g' = "(group_of 1 5 None None (Some ''g-0,g-1'') None)
          \<lparr>trace := [Create ''g-0'' None, Create ''g-1'' (Some ''boom'')]\<rparr>"
  have L: "[] = read_inst_list (resource_id ?g)" by code_simp
  have lt: "int (length ([] :: string list)) < 3" by simp
  have r: "resize (env_fail_on ''g-1'') 3 True ?g = (Raised (NestedResourceFailure ''boom''), ?g')"
    by code_simp
  from C4_grow_records_then_creates [OF L lt r]
  show ?thesis by (simp add: group_of_def)
qed

section \<open>Idempotence\<close>



end
